theory Spec2Isabelle
  imports Complex_Main
begin

section \<open>JavaScript values\<close>

text \<open>
  The values the report computes with are JavaScript numbers, \<open>undefined\<close> and \<open>null\<close>.
  A finite number is modelled by a real, and negative zero is identified with zero (no
  expression of the program tells them apart). The rounding of double arithmetic is
  modelled where it decides which element of an array is read, that is under \<open>Math.ceil\<close>
  in calculatePercentile; a sum, a mean or a quotient that is only reported is the exact
  real, which the double differs from by its rounding alone.
\<close>

datatype jsval = Undefined | Null | NaN | PosInfinity | NegInfinity | Num real

fun ToNumber :: "jsval \<Rightarrow> jsval" where
  "ToNumber Undefined = NaN"
| "ToNumber Null = Num 0"
| "ToNumber v = v"

fun number_add :: "jsval \<Rightarrow> jsval \<Rightarrow> jsval" where
  "number_add (Num a) (Num b) = Num (a + b)"
| "number_add PosInfinity NegInfinity = NaN"
| "number_add NegInfinity PosInfinity = NaN"
| "number_add PosInfinity (Num b) = PosInfinity"
| "number_add (Num a) PosInfinity = PosInfinity"
| "number_add PosInfinity PosInfinity = PosInfinity"
| "number_add NegInfinity (Num b) = NegInfinity"
| "number_add (Num a) NegInfinity = NegInfinity"
| "number_add NegInfinity NegInfinity = NegInfinity"
| "number_add _ _ = NaN"

fun number_div :: "jsval \<Rightarrow> jsval \<Rightarrow> jsval" where
  "number_div (Num a) (Num b) =
     (if b = 0 then (if a = 0 then NaN else if 0 < a then PosInfinity else NegInfinity)
      else Num (a / b))"
| "number_div PosInfinity (Num b) = (if b < 0 then NegInfinity else PosInfinity)"
| "number_div NegInfinity (Num b) = (if b < 0 then PosInfinity else NegInfinity)"
| "number_div (Num a) PosInfinity = Num 0"
| "number_div (Num a) NegInfinity = Num 0"
| "number_div _ _ = NaN"

text \<open>The operators \<open>+\<close> and \<open>/\<close> on these values (no strings occur).\<close>

definition js_add :: "jsval \<Rightarrow> jsval \<Rightarrow> jsval" where
  "js_add a b = number_add (ToNumber a) (ToNumber b)"

definition js_div :: "jsval \<Rightarrow> jsval \<Rightarrow> jsval" where
  "js_div a b = number_div (ToNumber a) (ToNumber b)"

text \<open>
  Reading \<open>array[r]\<close>: an index that is not an integer inside the array gives
  \<open>undefined\<close>; nothing is raised.
\<close>

definition js_index :: "real list \<Rightarrow> real \<Rightarrow> jsval" where
  "js_index xs r =
     (if r = of_int \<lfloor>r\<rfloor> \<and> 0 \<le> r \<and> r < of_nat (length xs)
      then Num (xs ! nat \<lfloor>r\<rfloor>) else Undefined)"

text \<open>
  Rounding a real to the nearest double, ties to even: a double has 53 significant bits,
  so in the binade \<open>2^e \<le> |x| < 2^(e+1)\<close> the doubles are the multiples of \<open>2^(e-52)\<close>.
  The exponent range is not bounded here. With an array of fewer than \<open>2^32\<close> elements
  the product overflows only for a percentile beyond \<open>2^990\<close> in size, where the index
  is past the end of the array (or below 0) with the bound and without it; and a
  quotient in the subnormal range gives a product within 1 of zero, where the index
  read is 0 with gradual underflow and without it.
\<close>

definition pow2 :: "int \<Rightarrow> real" where
  "pow2 e = (if 0 \<le> e then 2 ^ nat e else 1 / 2 ^ nat (- e))"

function binade :: "real \<Rightarrow> int" where
  "binade x =
     (if 2 \<le> x then binade (x / 2) + 1
      else if 0 < x \<and> x < 1 then binade (2 * x) - 1
      else 0)"
  by pat_completeness auto
termination
proof (relation "measure (\<lambda>x. if 1 \<le> x then nat \<lfloor>x\<rfloor> else if 0 < x then nat \<lceil>1 / x\<rceil> else 0)")
  show "wf (measure (\<lambda>x. if 1 \<le> x then nat \<lfloor>x\<rfloor> else if 0 < x then nat \<lceil>1 / x\<rceil> else 0))"
    by simp
next
  fix x :: real
  assume x: "2 \<le> x"
  have "\<lfloor>x / 2\<rfloor> < \<lfloor>x\<rfloor>"
    using x by linarith
  moreover have "0 < \<lfloor>x\<rfloor>" using x by linarith
  ultimately show "(x / 2, x) \<in> measure (\<lambda>x. if 1 \<le> x then nat \<lfloor>x\<rfloor> else if 0 < x then nat \<lceil>1 / x\<rceil> else 0)"
    using x by simp
next
  fix x :: real
  assume "\<not> 2 \<le> x" and x: "0 < x \<and> x < 1"
  show "(2 * x, x) \<in> measure (\<lambda>x. if 1 \<le> x then nat \<lfloor>x\<rfloor> else if 0 < x then nat \<lceil>1 / x\<rceil> else 0)"
  proof (cases "1 \<le> 2 * x")
    case True
    then have "\<lfloor>2 * x\<rfloor> = 1" using x by linarith
    moreover have "1 < 1 / x" using x by simp
    then have "1 < \<lceil>1 / x\<rceil>" by linarith
    ultimately show ?thesis using True x by simp
  next
    case False
    then have "2 < 1 / x" using x by (simp add: field_simps)
    moreover have "1 / (2 * x) = (1 / x) / 2" by simp
    ultimately have "\<lceil>1 / (2 * x)\<rceil> < \<lceil>1 / x\<rceil>" by linarith
    moreover have "0 < \<lceil>1 / x\<rceil>" using x by (simp add: )
    ultimately show ?thesis using False x by simp
  qed
qed

declare binade.simps [simp del]

definition round_half_even :: "real \<Rightarrow> int" where
  "round_half_even t =
     (let f = \<lfloor>t\<rfloor>; d = t - of_int f
      in if d < 1 / 2 then f
         else if 1 / 2 < d then f + 1
         else if even f then f else f + 1)"

definition to_double :: "real \<Rightarrow> real" where
  "to_double x =
     (if x = 0 then 0
      else let ulp = pow2 (binade \<bar>x\<bar> - 52)
           in of_int (round_half_even (x / ulp)) * ulp)"

text \<open>Truthiness, as \<open>!solPriceUSD\<close> tests it.\<close>

fun falsy :: "jsval \<Rightarrow> bool" where
  "falsy Undefined = True"
| "falsy Null = True"
| "falsy NaN = True"
| "falsy (Num x) = (x = 0)"
| "falsy PosInfinity = False"
| "falsy NegInfinity = False"

text \<open>\<open>v.toFixed(n)\<close> raises a TypeError on \<open>undefined\<close> and \<open>null\<close> only.\<close>

fun has_toFixed :: "jsval \<Rightarrow> bool" where
  "has_toFixed Undefined = False"
| "has_toFixed Null = False"
| "has_toFixed v = True"

datatype js_error = TypeError | RequestError | WriteError

datatype completion = Normal | Throw js_error


section \<open>Transactions and the classifier\<close>

text \<open>
  An entry of \<open>accountKeys\<close> is a value whose \<open>toString()\<close> yields a string (a PublicKey
  or a string), or \<open>null\<close>/\<open>undefined\<close>, on which \<open>toString()\<close> raises.
  \<open>KeysAbsent\<close> stands for a falsy \<open>transaction.transaction?.message?.accountKeys\<close> (a link
  of the chain or the field itself is missing), \<open>KeysNotArray\<close> for a truthy value that is
  not an array. In the metadata a field is a number, or \<open>None\<close> when it is \<open>undefined\<close>;
  the metadata itself is \<open>None\<close> when it is \<open>null\<close> or \<open>undefined\<close>.
\<close>

datatype account = BadAccount | Account string

datatype account_keys = KeysAbsent | KeysNotArray | KeysArray "account list"

record tx_meta =
  fee :: "real option"
  computeUnitsConsumed :: "real option"

record tx =
  accountKeys :: account_keys
  meta :: "tx_meta option"

text \<open>A transaction value is an object, or \<open>null\<close>/\<open>undefined\<close> (a property read raises).\<close>

datatype tx_value = TxNullish | TxObject tx

definition VOTE_PROGRAM_ID :: string where
  "VOTE_PROGRAM_ID = ''Vote111111111111111111111111111111111111111''"

definition STAKE_PROGRAM_ID :: string where
  "STAKE_PROGRAM_ID = ''Stake11111111111111111111111111111111111111''"

text \<open>\<open>accountKeys.some(...)\<close>: left to right, stopping at the first match or the first raise.\<close>

fun accountKeys_some :: "account list \<Rightarrow> js_error + bool" where
  "accountKeys_some [] = Inr False"
| "accountKeys_some (BadAccount # rest) = Inl TypeError"
| "accountKeys_some (Account s # rest) =
     (if s = VOTE_PROGRAM_ID \<or> s = STAKE_PROGRAM_ID then Inr True else accountKeys_some rest)"

text \<open>The body of the \<open>try\<close> block of isVotingTransaction.\<close>

fun isVotingTransaction_try :: "tx_value \<Rightarrow> js_error + bool" where
  "isVotingTransaction_try TxNullish = Inl TypeError"
| "isVotingTransaction_try (TxObject t) =
     (case accountKeys t of
        KeysAbsent \<Rightarrow> Inr False
      | KeysNotArray \<Rightarrow> Inr False
      | KeysArray ks \<Rightarrow> accountKeys_some ks)"

definition isVotingTransaction :: "tx_value \<Rightarrow> bool" where
  "isVotingTransaction transaction =
     (case isVotingTransaction_try transaction of Inl err \<Rightarrow> False | Inr b \<Rightarrow> b)"


section \<open>Order statistics\<close>

text \<open>
  \<open>Math.ceil((percentile / 100) * sortedArray.length) - 1\<close>, each operation rounded to a
  double as the program computes it; \<open>Math.ceil\<close> itself is exact. The percentile is a
  finite number.
\<close>

definition percentile_index :: "real \<Rightarrow> nat \<Rightarrow> real" where
  "percentile_index percentile len =
     to_double (of_int \<lceil>to_double (to_double (percentile / 100) * of_nat len)\<rceil> - 1)"

definition calculatePercentile :: "real list \<Rightarrow> real \<Rightarrow> jsval" where
  "calculatePercentile sortedArray percentile =
     (if length sortedArray = 0 then Num 0
      else let index = percentile_index percentile (length sortedArray)
           in js_index sortedArray (max 0 index))"

definition maxFee :: "real list \<Rightarrow> jsval" where
  "maxFee sortedFees = js_index sortedFees (of_nat (length sortedFees) - 1)"

definition averageFee :: "real list \<Rightarrow> jsval" where
  "averageFee sortedFees =
     js_div (Num (foldl (\<lambda>sum fee. sum + fee) 0 sortedFees)) (Num (of_nat (length sortedFees)))"

definition medianFee :: "real list \<Rightarrow> jsval" where
  "medianFee sortedFees =
     (if length sortedFees mod 2 = 0
      then js_div (js_add (js_index sortedFees (of_nat (length sortedFees) / 2 - 1))
                          (js_index sortedFees (of_nat (length sortedFees) / 2))) (Num 2)
      else js_index sortedFees (of_int \<lfloor>(of_nat (length sortedFees) :: real) / 2\<rfloor>))"

definition percentile95Fee :: "real list \<Rightarrow> jsval" where
  "percentile95Fee sortedFees = calculatePercentile sortedFees 95"

text \<open>
  \<open>computeUnits.sort(...)\<close> sorts in place, so \<open>computeUnits\<close> and \<open>sortedComputeUnits\<close>
  are one array: the three compute-unit statistics read the sorted array.
\<close>

definition maxCU :: "real list \<Rightarrow> jsval" where
  "maxCU sortedComputeUnits =
     js_index sortedComputeUnits (of_nat (length sortedComputeUnits) - 1)"

definition averageCU :: "real list \<Rightarrow> jsval" where
  "averageCU computeUnits =
     js_div (Num (foldl (\<lambda>sum cu. sum + cu) 0 computeUnits)) (Num (of_nat (length computeUnits)))"

definition medianCU :: "real list \<Rightarrow> jsval" where
  "medianCU sortedComputeUnits =
     (if length sortedComputeUnits mod 2 = 0
      then js_div (js_add (js_index sortedComputeUnits (of_nat (length sortedComputeUnits) / 2 - 1))
                          (js_index sortedComputeUnits (of_nat (length sortedComputeUnits) / 2)))
                  (Num 2)
      else js_index sortedComputeUnits
             (of_int \<lfloor>(of_nat (length sortedComputeUnits) :: real) / 2\<rfloor>))"

text \<open>
  The index the specification gives for the percentile, in exact arithmetic: the ceiling
  index clamped to \<open>0 .. N - 1\<close>.
\<close>

definition clamp :: "int \<Rightarrow> int \<Rightarrow> int \<Rightarrow> int" where
  "clamp x lo hi = max lo (min hi x)"

definition spec_percentile_index :: "real \<Rightarrow> nat \<Rightarrow> int" where
  "spec_percentile_index p N = clamp (\<lceil>(p / 100) * of_nat N\<rceil> - 1) 0 (int N - 1)"


section \<open>The run\<close>

record summary =
  start_slot :: int
  end_slot :: int
  total_transactions :: nat
  average_tps :: jsval
  max_fee_sol :: jsval
  average_fee_sol :: jsval
  median_fee_sol :: jsval
  percentile95_fee_sol :: jsval
  max_cu :: jsval
  average_cu :: jsval
  median_cu :: jsval
  sol_price_usd :: jsval

text \<open>
  What the program writes to the console, one event per message; the lines of one
  printReport call are one event.
\<close>

datatype event =
    LogLatestSlot int
  | LogFetchingBlock int
  | LogNoTransactions int
  | ErrFetchingPrice
  | LogUnableToFetchPrice
  | ErrCheckingVoting
  | LogNoPriorityFees
  | LogReport summary
  | ErrInserting
  | LogInserted int int
  | LogAppended int int
  | LogProcessed nat nat
  | ErrAnalyzing

text \<open>
  The collaborators: the chain head (\<open>None\<close> when the request is rejected), the block at
  a slot, the price service's answer to the request made at loop position \<open>i\<close>, and
  whether the sink write made there fails. The delay between fetches is pacing only and
  is left out. The command line admits a batch size of 1 to 100 only, and a number of
  samples below zero runs no batch, as zero does: both are naturals here.
\<close>

datatype storage = Db | Csv

datatype block_reply = BlockRejected | BlockMissing | Block "tx_value list"

datatype price_reply = PriceRequestFails | PriceReply jsval

record env =
  numSamples :: nat
  batchSize :: nat
  storageFormat :: storage
  getSlot :: "int option"
  getBlock :: "int \<Rightarrow> block_reply"
  priceResponse :: "nat \<Rightarrow> price_reply"
  writeFails :: "nat \<Rightarrow> bool"

record state =
  console :: "event list"
  stored :: "summary list"
  batchStartSlot :: int
  batchCount :: nat
  priorityFees :: "real list"
  computeUnits :: "real list"
  totalNonVotingTransactions :: nat

definition say :: "event \<Rightarrow> state \<Rightarrow> state" where
  "say e s = s\<lparr>console := console s @ [e]\<rparr>"

definition LAMPORTS_PER_SOL :: real where
  "LAMPORTS_PER_SOL = 1000000000"

definition blockTime :: real where
  "blockTime = 0.4"

text \<open>getSolanaPriceInUSD: a failed request is logged and answered by \<open>null\<close>.\<close>

fun getSolanaPriceInUSD :: "price_reply \<Rightarrow> state \<Rightarrow> jsval \<times> state" where
  "getSolanaPriceInUSD PriceRequestFails s = (Null, say ErrFetchingPrice s)"
| "getSolanaPriceInUSD (PriceReply solanaPrice) s = (solanaPrice, s)"

text \<open>The two guarded pushes of the forEach callback.\<close>

definition push_fee :: "tx_meta option \<Rightarrow> state \<Rightarrow> state" where
  "push_fee m s =
     (case m of
        None \<Rightarrow> s
      | Some mt \<Rightarrow>
          (case fee mt of
             None \<Rightarrow> s
           | Some f \<Rightarrow>
               (let feeInSOL = f / LAMPORTS_PER_SOL
                in if 0 < feeInSOL
                   then s\<lparr>priorityFees := priorityFees s @ [feeInSOL],
                          totalNonVotingTransactions := totalNonVotingTransactions s + 1\<rparr>
                   else s)))"

definition push_compute_units :: "tx_meta option \<Rightarrow> state \<Rightarrow> state" where
  "push_compute_units m s =
     (case m of
        None \<Rightarrow> s
      | Some mt \<Rightarrow>
          (case computeUnitsConsumed mt of
             None \<Rightarrow> s
           | Some cu \<Rightarrow> s\<lparr>computeUnits := computeUnits s @ [cu]\<rparr>))"

text \<open>
  The callback of \<open>block.transactions.forEach\<close>. The classifier logs its own fault; a
  nullish transaction then raises at \<open>tx.meta\<close>.
\<close>

definition forEach_callback :: "tx_value \<Rightarrow> state \<Rightarrow> completion \<times> state" where
  "forEach_callback v s =
     (let s1 = (case isVotingTransaction_try v of
                  Inl err \<Rightarrow> say ErrCheckingVoting s
                | Inr b \<Rightarrow> s)
      in if isVotingTransaction v then (Normal, s1)
         else (case v of
                 TxNullish \<Rightarrow> (Throw TypeError, s1)
               | TxObject t \<Rightarrow> (Normal, push_compute_units (meta t) (push_fee (meta t) s1))))"

fun forEach :: "tx_value list \<Rightarrow> state \<Rightarrow> completion \<times> state" where
  "forEach [] s = (Normal, s)"
| "forEach (v # vs) s =
     (case forEach_callback v s of
        (Normal, s1) \<Rightarrow> forEach vs s1
      | (Throw e, s1) \<Rightarrow> (Throw e, s1))"

text \<open>The inner loop over \<open>j\<close>, run on \<open>[0..<batchSize]\<close>: one block fetch per slot.\<close>

fun slot_loop :: "env \<Rightarrow> int \<Rightarrow> nat \<Rightarrow> nat list \<Rightarrow> state \<Rightarrow> completion \<times> state" where
  "slot_loop e latestSlot i [] s = (Normal, s)"
| "slot_loop e latestSlot i (j # js) s =
     (let slot = latestSlot - int i - int j;
          s1 = say (LogFetchingBlock slot) s
      in case getBlock e slot of
           BlockRejected \<Rightarrow> (Throw RequestError, s1)
         | BlockMissing \<Rightarrow> slot_loop e latestSlot i js (say (LogNoTransactions slot) s1)
         | Block txs \<Rightarrow>
             (case forEach txs s1 of
                (Normal, s2) \<Rightarrow> slot_loop e latestSlot i js s2
              | (Throw err, s2) \<Rightarrow> (Throw err, s2)))"

text \<open>The statistics of one batch and the arguments handed to printReport and saveData.\<close>

definition batch_summary :: "nat \<Rightarrow> jsval \<Rightarrow> state \<Rightarrow> summary" where
  "batch_summary bsize solPriceUSD s =
     (let sortedFees = sort (priorityFees s);
          sortedComputeUnits = sort (computeUnits s);
          totalTime = real bsize * blockTime
      in \<lparr> start_slot = batchStartSlot s,
           end_slot = batchStartSlot s - (int bsize - 1),
           total_transactions = totalNonVotingTransactions s,
           average_tps = js_div (Num (real (totalNonVotingTransactions s))) (Num totalTime),
           max_fee_sol = maxFee sortedFees,
           average_fee_sol = averageFee sortedFees,
           median_fee_sol = medianFee sortedFees,
           percentile95_fee_sol = percentile95Fee sortedFees,
           max_cu = maxCU sortedComputeUnits,
           average_cu = averageCU sortedComputeUnits,
           median_cu = medianCU sortedComputeUnits,
           sol_price_usd = solPriceUSD \<rparr>)"

text \<open>
  printReport formats seven of its arguments with \<open>toFixed\<close>; the maximum and the median
  of the compute units are printed as they are.
\<close>

definition printReport :: "summary \<Rightarrow> state \<Rightarrow> completion \<times> state" where
  "printReport row s =
     (if list_all has_toFixed
           [average_tps row, max_fee_sol row, average_fee_sol row, median_fee_sol row,
            percentile95_fee_sol row, average_cu row, sol_price_usd row]
      then (Normal, say (LogReport row) s)
      else (Throw TypeError, s))"

text \<open>
  saveData: the table variant reports a failed insert in its callback and returns (the
  callback's message is put on the console at the call); the flat-file variant appends
  synchronously, so a failed append raises.
\<close>

definition saveData :: "env \<Rightarrow> nat \<Rightarrow> summary \<Rightarrow> state \<Rightarrow> completion \<times> state" where
  "saveData e i row s =
     (case storageFormat e of
        Db \<Rightarrow>
          if writeFails e i then (Normal, say ErrInserting s)
          else (Normal, say (LogInserted (start_slot row) (end_slot row))
                            (s\<lparr>stored := stored s @ [row]\<rparr>))
      | Csv \<Rightarrow>
          if writeFails e i then (Throw WriteError, s)
          else (Normal, say (LogAppended (start_slot row) (end_slot row))
                            (s\<lparr>stored := stored s @ [row]\<rparr>)))"

text \<open>
  How one pass through the body of the outer loop ends: it falls through or meets
  \<open>continue\<close> (\<open>Next\<close>), it meets \<open>return\<close>, or it raises.
\<close>

datatype control = Next | Return | Raise js_error

definition batch_body :: "env \<Rightarrow> int \<Rightarrow> nat \<Rightarrow> state \<Rightarrow> control \<times> state" where
  "batch_body e latestSlot i s =
     (case getSolanaPriceInUSD (priceResponse e i) s of
        (solPriceUSD, s0) \<Rightarrow>
          if falsy solPriceUSD then (Return, say LogUnableToFetchPrice s0)
          else
            (case slot_loop e latestSlot i [0..<batchSize e]
                    (s0\<lparr>priorityFees := [], computeUnits := [],
                         totalNonVotingTransactions := 0\<rparr>) of
               (Throw err, s1) \<Rightarrow> (Raise err, s1)
             | (Normal, s1) \<Rightarrow>
                 if length (priorityFees s1) = 0 then (Next, say LogNoPriorityFees s1)
                 else
                   (let row = batch_summary (batchSize e) solPriceUSD s1
                    in case printReport row s1 of
                         (Throw err, s2) \<Rightarrow> (Raise err, s2)
                       | (Normal, s2) \<Rightarrow>
                           (case saveData e i row s2 of
                              (Throw err, s3) \<Rightarrow> (Raise err, s3)
                            | (Normal, s3) \<Rightarrow>
                                (Next, s3\<lparr>batchStartSlot := batchStartSlot s3 - int (batchSize e),
                                          batchCount := batchCount s3 + 1\<rparr>)))))"

text \<open>The outer loop \<open>for (i = 0; i < numSamples * batchSize; i += batchSize)\<close>.\<close>

function batch_loop :: "env \<Rightarrow> int \<Rightarrow> nat \<Rightarrow> state \<Rightarrow> control \<times> state" where
  "batch_loop e latestSlot i s =
     (if i < numSamples e * batchSize e then
        (case batch_body e latestSlot i s of
           (Next, s1) \<Rightarrow> batch_loop e latestSlot (i + batchSize e) s1
         | (Return, s1) \<Rightarrow> (Return, s1)
         | (Raise err, s1) \<Rightarrow> (Raise err, s1))
      else (Next, s))"
  by pat_completeness auto
termination
proof (relation "measure (\<lambda>(e, latestSlot, i, s). numSamples e * batchSize e - i)")
  show "wf (measure (\<lambda>(e, latestSlot, i, s). numSamples e * batchSize e - i))"
    by simp
next
  fix e :: env and latestSlot :: int and i :: nat and s s1 :: state
  assume "i < numSamples e * batchSize e"
  then have "i < i + batchSize e" and "i < numSamples e * batchSize e"
    by (cases "batchSize e = 0", simp_all)+
  then have "numSamples e * batchSize e - (i + batchSize e) < numSamples e * batchSize e - i"
    by (rule diff_less_mono2)
  then show "((e, latestSlot, i + batchSize e, s1), e, latestSlot, i, s)
      \<in> measure (\<lambda>(e, latestSlot, i, s). numSamples e * batchSize e - i)"
    by simp
qed

declare batch_loop.simps [simp del]

definition initial_state :: state where
  "initial_state =
     \<lparr> console = [], stored = [], batchStartSlot = 0, batchCount = 0,
       priorityFees = [], computeUnits = [], totalNonVotingTransactions = 0 \<rparr>"

text \<open>
  analyzePriorityFees: the \<open>try\<close> holds the request for the chain head, the loop and the
  closing message; the \<open>catch\<close> logs whatever was raised.
\<close>

datatype outcome = Completed | HaltedNoPrice | Failed js_error

definition analyzePriorityFees :: "env \<Rightarrow> outcome \<times> state" where
  "analyzePriorityFees e =
     (case getSlot e of
        None \<Rightarrow> (Failed RequestError, say ErrAnalyzing initial_state)
      | Some latestSlot \<Rightarrow>
          (case batch_loop e latestSlot 0
                  (say (LogLatestSlot latestSlot)
                     (initial_state\<lparr>batchStartSlot := latestSlot\<rparr>)) of
             (Next, s) \<Rightarrow> (Completed, say (LogProcessed (batchCount s) (batchSize e)) s)
           | (Return, s) \<Rightarrow> (HaltedNoPrice, s)
           | (Raise err, s) \<Rightarrow> (Failed err, say ErrAnalyzing s)))"

text \<open>A price answer the run cannot use: the request failed, or the value is falsy.\<close>

fun price_unusable :: "price_reply \<Rightarrow> bool" where
  "price_unusable PriceRequestFails = True"
| "price_unusable (PriceReply v) = falsy v"


section \<open>Sample inputs\<close>

text \<open>Concrete transactions, collaborators and states on which the theorems are run.\<close>

definition paying_tx :: tx_value where
  "paying_tx =
     TxObject \<lparr> accountKeys = KeysAbsent,
                meta = Some \<lparr> fee = Some 5000, computeUnitsConsumed = Some 150 \<rparr> \<rparr>"

definition no_cu_tx :: tx_value where
  "no_cu_tx =
     TxObject \<lparr> accountKeys = KeysAbsent,
                meta = Some \<lparr> fee = Some 5000, computeUnitsConsumed = None \<rparr> \<rparr>"

definition zero_fee_tx :: tx where
  "zero_fee_tx =
     \<lparr> accountKeys = KeysArray [Account ''payer''],
       meta = Some \<lparr> fee = Some 0, computeUnitsConsumed = Some 150 \<rparr> \<rparr>"

definition fee_undefined_tx :: tx where
  "fee_undefined_tx =
     \<lparr> accountKeys = KeysArray [Account ''payer''],
       meta = Some \<lparr> fee = None, computeUnitsConsumed = Some 150 \<rparr> \<rparr>"

definition vote_tx :: tx where
  "vote_tx =
     \<lparr> accountKeys = KeysArray [Account ''payer'', Account VOTE_PROGRAM_ID],
       meta = Some \<lparr> fee = Some 5000, computeUnitsConsumed = Some 2100 \<rparr> \<rparr>"

definition faulting_tx :: tx where
  "faulting_tx =
     \<lparr> accountKeys = KeysArray [Account ''payer'', BadAccount, Account VOTE_PROGRAM_ID],
       meta = None \<rparr>"

definition faulting_vote_tx :: tx where
  "faulting_vote_tx =
     \<lparr> accountKeys = KeysArray [Account ''payer'', BadAccount, Account VOTE_PROGRAM_ID],
       meta = Some \<lparr> fee = Some 5000, computeUnitsConsumed = Some 2100 \<rparr> \<rparr>"

text \<open>Two batches of two slots from slot 1000; only slot 998 holds a paying transaction.\<close>

definition skipped_first_window :: env where
  "skipped_first_window =
     \<lparr> numSamples = 2, batchSize = 2, storageFormat = Db, getSlot = Some 1000,
       getBlock = (\<lambda>slot. if slot = 998 then Block [paying_tx] else BlockMissing),
       priceResponse = (\<lambda>i. PriceReply (Num 150)),
       writeFails = (\<lambda>i. False) \<rparr>"

text \<open>Two batches of one slot, flat-file sink; the first append fails.\<close>

definition csv_write_fails :: env where
  "csv_write_fails =
     \<lparr> numSamples = 2, batchSize = 1, storageFormat = Csv, getSlot = Some 1000,
       getBlock = (\<lambda>slot. Block [paying_tx]),
       priceResponse = (\<lambda>i. PriceReply (Num 150)),
       writeFails = (\<lambda>i. i = 0) \<rparr>"

text \<open>Three batches of one slot; the price request of the second batch fails.\<close>

definition price_fails_second_window :: env where
  "price_fails_second_window =
     \<lparr> numSamples = 3, batchSize = 1, storageFormat = Db, getSlot = Some 1000,
       getBlock = (\<lambda>slot. Block [paying_tx]),
       priceResponse = (\<lambda>i. if i = 1 then PriceRequestFails else PriceReply (Num 150)),
       writeFails = (\<lambda>i. False) \<rparr>"

text \<open>One batch of one slot whose only transaction has a fee and no compute units.\<close>

definition no_compute_units_window :: env where
  "no_compute_units_window =
     \<lparr> numSamples = 1, batchSize = 1, storageFormat = Db, getSlot = Some 1000,
       getBlock = (\<lambda>slot. Block [no_cu_tx]),
       priceResponse = (\<lambda>i. PriceReply (Num 150)),
       writeFails = (\<lambda>i. False) \<rparr>"

definition no_compute_units_scanned :: state where
  "no_compute_units_scanned =
     \<lparr> console = [LogFetchingBlock 1000], stored = [], batchStartSlot = 0, batchCount = 0,
       priorityFees = [5000 / 1000000000], computeUnits = [],
       totalNonVotingTransactions = 1 \<rparr>"

text \<open>One batch of one slot whose block holds a paying and a vote transaction.\<close>

definition block_with_vote :: env where
  "block_with_vote =
     \<lparr> numSamples = 1, batchSize = 1, storageFormat = Db, getSlot = Some 1000,
       getBlock = (\<lambda>slot. Block ([paying_tx] @ TxObject vote_tx # [])),
       priceResponse = (\<lambda>i. PriceReply (Num 150)),
       writeFails = (\<lambda>i. False) \<rparr>"

text \<open>The sorted sequence 1, 2, ..., 25.\<close>

definition one_to_25 :: "real list" where
  "one_to_25 = map real [1..<26]"

text \<open>
  One batch of one slot whose block holds a paying transaction and a transaction whose
  account keys are \<open>[payer, null, vote program]\<close>.
\<close>

definition block_with_faulting_vote :: env where
  "block_with_faulting_vote =
     \<lparr> numSamples = 1, batchSize = 1, storageFormat = Db, getSlot = Some 1000,
       getBlock = (\<lambda>slot. Block [paying_tx, TxObject faulting_vote_tx]),
       priceResponse = (\<lambda>i. PriceReply (Num 150)),
       writeFails = (\<lambda>i. False) \<rparr>"


section \<open>Facts about the values\<close>

lemma js_index_int:
  "js_index xs (of_int k) =
     (if 0 \<le> k \<and> k < int (length xs) then Num (xs ! nat k) else Undefined)"
  by (auto simp: js_index_def)

lemma js_index_nat:
  "js_index xs (real k) = (if k < length xs then Num (xs ! k) else Undefined)"
  using js_index_int [of xs "int k"] by simp

lemma has_toFixed_quotient: "has_toFixed (js_div (Num a) (Num b))"
  by (simp add: js_div_def)

lemma has_toFixed_truthy: "\<not> falsy v \<Longrightarrow> has_toFixed v"
  by (cases v) simp_all

lemma stored_say [simp]: "stored (say ev s) = stored s"
  by (simp add: say_def)

lemma console_say [simp]: "console (say ev s) = console s @ [ev]"
  by (simp add: say_def)

lemma batchCount_say [simp]: "batchCount (say ev s) = batchCount s"
  by (simp add: say_def)


section \<open>Rounding to doubles\<close>

lemma pow2_pos: "0 < pow2 e"
  by (simp add: pow2_def)

lemma pow2_Suc: "pow2 (e + 1) = 2 * pow2 e"
proof (cases "0 \<le> e")
  case True
  then have "nat (e + 1) = Suc (nat e)" by simp
  then show ?thesis using True by (simp add: pow2_def)
next
  case False
  then have "nat (- e) = Suc (nat (- (e + 1)))" by simp
  then show ?thesis using False by (simp add: pow2_def)
qed

lemma pow2_pred: "pow2 (e - 1) = pow2 e / 2"
  using pow2_Suc [of "e - 1"] by simp

lemma pow2_diff: "pow2 (e - int k) = pow2 e / 2 ^ k"
proof (induction k)
  case 0
  then show ?case by simp
next
  case (Suc k)
  have "pow2 (e - int (Suc k)) = pow2 (e - int k - 1)"
    by (simp add: algebra_simps)
  then show ?case using Suc by (simp add: pow2_pred)
qed

lemma pow2_nat: "pow2 (int k) = 2 ^ k"
  by (simp add: pow2_def)

lemma pow2_mono: "a \<le> b \<Longrightarrow> pow2 a \<le> pow2 b"
proof -
  assume ab: "a \<le> b"
  define k where "k = nat (b - a)"
  have k: "a = b - int k"
    using ab by (simp add: k_def)
  have "(1::real) \<le> 2 ^ k"
    by simp
  then have "pow2 b * 1 \<le> pow2 b * 2 ^ k"
    using pow2_pos [of b] by (simp only: mult_le_cancel_left_pos)
  then have "pow2 b / 2 ^ k \<le> pow2 b"
    by (simp add: divide_le_eq)
  then show ?thesis
    by (simp only: k pow2_diff)
qed

lemma binade_bounds:
  "0 < x \<Longrightarrow> pow2 (binade x) \<le> x \<and> x < 2 * pow2 (binade x)"
proof (induction x rule: binade.induct)
  case (1 x)
  show ?case
  proof (cases "2 \<le> x")
    case True
    then have b: "binade x = binade (x / 2) + 1"
      by (simp add: binade.simps [of x])
    have "pow2 (binade (x / 2)) \<le> x / 2 \<and> x / 2 < 2 * pow2 (binade (x / 2))"
      using 1 True by simp
    then show ?thesis by (simp add: b pow2_Suc)
  next
    case False
    show ?thesis
    proof (cases "x < 1")
      case True
      then have b: "binade x = binade (2 * x) - 1"
        using 1(3) False by (simp add: binade.simps [of x])
      have "pow2 (binade (2 * x)) \<le> 2 * x \<and> 2 * x < 2 * pow2 (binade (2 * x))"
        using 1 True False by simp
      then show ?thesis by (simp add: b pow2_pred)
    next
      case ge: False
      then have "binade x = 0"
        using False by (simp add: binade.simps [of x])
      then show ?thesis using ge False by (simp add: pow2_def)
    qed
  qed
qed

lemma round_half_even_bounds:
  "of_int (round_half_even t) \<le> t + 1 / 2" "t - 1 / 2 \<le> of_int (round_half_even t)"
  by (simp_all add: round_half_even_def Let_def) linarith+

lemma round_half_even_le: "t \<le> of_int j \<Longrightarrow> round_half_even t \<le> j"
proof -
  assume t: "t \<le> of_int j"
  then have f: "\<lfloor>t\<rfloor> \<le> j" by (simp add: floor_le_iff) 
  show ?thesis
  proof (cases "\<lfloor>t\<rfloor> = j")
    case True
    then have "t = of_int j" using t by linarith
    then show ?thesis by (simp add: round_half_even_def)
  next
    case False
    then have "\<lfloor>t\<rfloor> + 1 \<le> j" using f by simp
    then show ?thesis by (simp add: round_half_even_def Let_def)
  qed
qed

lemma round_half_even_int: "round_half_even (of_int j) = j"
  by (simp add: round_half_even_def)

lemma round_half_even_nonneg: "0 \<le> t \<Longrightarrow> 0 \<le> round_half_even t"
  by (simp add: round_half_even_def Let_def)

lemma to_double_nonpos: "x \<le> 0 \<Longrightarrow> to_double x \<le> 0"
proof (cases "x = 0")
  case True
  then show ?thesis by (simp add: to_double_def)
next
  case False
  assume "x \<le> 0"
  let ?u = "pow2 (binade \<bar>x\<bar> - 52)"
  have "x / ?u \<le> of_int 0"
    using \<open>x \<le> 0\<close> pow2_pos [of "binade \<bar>x\<bar> - 52"] by (simp add: divide_nonpos_pos)
  then have "round_half_even (x / ?u) \<le> 0"
    by (rule round_half_even_le)
  then have "of_int (round_half_even (x / ?u)) * ?u \<le> 0"
    using pow2_pos [of "binade \<bar>x\<bar> - 52"] by (simp add: mult_le_0_iff)
  then show ?thesis using False by (simp add: to_double_def Let_def)
qed

lemma to_double_error:
  assumes "0 < x"
  shows "to_double x \<le> x * (1 + 1 / 2 ^ 53)"
proof -
  let ?e = "binade \<bar>x\<bar>"
  let ?u = "pow2 (?e - 52)"
  have u: "0 < ?u" by (rule pow2_pos)
  have "pow2 ?e \<le> x"
    using binade_bounds [of x] assms by simp
  moreover have "?u = pow2 ?e / 2 ^ 52"
    using pow2_diff [of ?e 52] by simp
  ultimately have half: "?u / 2 \<le> x / 2 ^ 53"
    by (simp add: field_simps)
  have "of_int (round_half_even (x / ?u)) \<le> x / ?u + 1 / 2"
    by (rule round_half_even_bounds)
  then have "of_int (round_half_even (x / ?u)) * ?u \<le> (x / ?u + 1 / 2) * ?u"
    using u by (simp add: mult_le_cancel_right)
  also have "\<dots> = x + ?u / 2"
    using u by (simp add: field_simps)
  also have "\<dots> \<le> x + x / 2 ^ 53"
    using half by simp
  finally show ?thesis
    using assms by (simp add: to_double_def Let_def algebra_simps)
qed

lemma to_double_le_int:
  assumes "x \<le> of_int n" and "0 \<le> n" and "n < 2 ^ 53"
  shows "to_double x \<le> of_int n"
proof (cases "0 < x")
  case False
  then have "to_double x \<le> 0" by (intro to_double_nonpos) simp
  then show ?thesis using assms(2) by simp
next
  case True
  let ?e = "binade \<bar>x\<bar>"
  let ?u = "pow2 (?e - 52)"
  have u: "0 < ?u" by (rule pow2_pos)
  have "pow2 ?e \<le> x" using binade_bounds [of x] True by simp
  also have "x < 2 ^ 53"
  proof -
    have "x \<le> real_of_int n" using assms(1) .
    also have "real_of_int n < real_of_int (2 ^ 53)" using assms(3) by (simp only: of_int_less_iff)
    finally show ?thesis by simp
  qed
  finally have lt: "pow2 ?e < pow2 53" by (simp add: pow2_def)
  have "?e \<le> 52"
  proof (rule ccontr)
    assume "\<not> ?e \<le> 52"
    then have "pow2 53 \<le> pow2 ?e" by (intro pow2_mono) simp
    then show False using lt by simp
  qed
  then obtain k where k: "?e - 52 = - int k"
    by (metis diff_ge_0_iff_ge minus_diff_eq nat_0_le)
  have uk: "?u = 1 / 2 ^ k"
    using pow2_diff [of 0 k] by (simp add: k pow2_def)
  have "x / ?u = x * 2 ^ k" by (simp add: uk)
  also have "\<dots> \<le> of_int n * 2 ^ k" using assms(1) by simp
  also have "\<dots> = of_int (n * 2 ^ k)" by simp
  finally have "round_half_even (x / ?u) \<le> n * 2 ^ k"
    by (rule round_half_even_le)
  then have "real_of_int (round_half_even (x / ?u)) \<le> real_of_int (n * 2 ^ k)"
    by (simp only: of_int_le_iff)
  then have "of_int (round_half_even (x / ?u)) * ?u \<le> of_int (n * 2 ^ k) * ?u"
    using u by (simp only: mult_le_cancel_right) simp
  also have "\<dots> = of_int n" by (simp add: uk)
  finally show ?thesis using True by (simp add: to_double_def Let_def)
qed

lemma to_double_of_int: "\<exists>j. to_double (of_int m) = of_int j"
proof (cases "m = 0")
  case True
  then have "to_double (of_int m) = of_int 0" by (simp add: to_double_def)
  then show ?thesis by blast
next
  case False
  let ?x = "real_of_int m"
  let ?e = "binade \<bar>?x\<bar>"
  let ?u = "pow2 (?e - 52)"
  have td: "to_double ?x = of_int (round_half_even (?x / ?u)) * ?u"
    using False by (simp add: to_double_def Let_def)
  show ?thesis
  proof (cases "?e \<le> 52")
    case True
    then obtain k where k: "?e - 52 = - int k"
      by (metis diff_ge_0_iff_ge minus_diff_eq nat_0_le)
    have uk: "?u = 1 / 2 ^ k"
      using pow2_diff [of 0 k] by (simp add: k pow2_def)
    have "?x / ?u = of_int (m * 2 ^ k)" by (simp add: uk)
    then have "round_half_even (?x / ?u) = m * 2 ^ k"
      by (simp only: round_half_even_int)
    then have "to_double ?x = of_int m"
      by (simp add: td uk)
    then show ?thesis by blast
  next
    case False
    then have "?u = 2 ^ nat (?e - 52)" by (simp add: pow2_def)
    then have "to_double ?x = of_int (round_half_even (?x / ?u) * 2 ^ nat (?e - 52))"
      by (simp add: td)
    then show ?thesis by blast
  qed
qed

lemma to_double_nonneg: "0 \<le> x \<Longrightarrow> 0 \<le> to_double x"
proof (cases "x = 0")
  case True
  then show ?thesis by (simp add: to_double_def)
next
  case False
  assume "0 \<le> x"
  let ?u = "pow2 (binade \<bar>x\<bar> - 52)"
  have "0 \<le> x / ?u"
    using \<open>0 \<le> x\<close> pow2_pos [of "binade \<bar>x\<bar> - 52"] by simp
  then have "0 \<le> round_half_even (x / ?u)"
    by (rule round_half_even_nonneg)
  then have "0 \<le> of_int (round_half_even (x / ?u)) * ?u"
    using pow2_pos [of "binade \<bar>x\<bar> - 52"] by simp
  then show ?thesis using False by (simp add: to_double_def Let_def)
qed

lemma to_double_error_nonneg:
  assumes "0 \<le> x"
  shows "to_double x \<le> x * (1 + 1 / 2 ^ 53)"
proof (cases "x = 0")
  case True
  then show ?thesis by (simp add: to_double_def)
next
  case False
  then have "0 < x" using assms by simp
  then show ?thesis by (rule to_double_error)
qed


section \<open>The order statistics\<close>

lemma percentile_index_int: "\<exists>j. percentile_index p n = of_int j"
proof -
  define c where "c = \<lceil>to_double (to_double (p / 100) * real n)\<rceil>"
  have "percentile_index p n = to_double (of_int (c - 1))"
    by (simp add: percentile_index_def c_def)
  then show ?thesis
    using to_double_of_int [of "c - 1"] by simp
qed

lemma percentile_index_le:
  assumes "p \<le> 100" and "0 < n" and "n < 2 ^ 32"
  shows "percentile_index p n \<le> real n - 1"
proof -
  define q where "q = to_double (p / 100)"
  define x where "x = to_double (q * real n)"
  define c where "c = \<lceil>x\<rceil>"
  have n53: "int n < 2 ^ 53"
  proof -
    have "int n < 2 ^ 32" using assms(3) by (simp add: of_nat_less_numeral_power_cancel_iff)
    also have "(2::int) ^ 32 < 2 ^ 53" by simp
    finally show ?thesis .
  qed
  have "p / 100 \<le> of_int 1"
    using assms(1) by simp
  then have "q \<le> of_int 1"
    unfolding q_def by (rule to_double_le_int) simp_all
  then have "q * real n \<le> 1 * real n"
    by (intro mult_right_mono) simp_all
  then have "q * real n \<le> of_int (int n)"
    by simp
  moreover have "0 \<le> int n"
    by simp
  ultimately have "x \<le> of_int (int n)"
    unfolding x_def using n53 by (rule to_double_le_int)
  then have "c \<le> int n"
    unfolding c_def by (simp add: ceiling_le_iff)
  then have "c - 1 \<le> int n - 1"
    by simp
  then have "real_of_int (c - 1) \<le> of_int (int n - 1)"
    by (simp only: of_int_le_iff)
  moreover have "0 \<le> int n - 1" using assms(2) by simp
  moreover have "int n - 1 < 2 ^ 53" using n53 by simp
  ultimately have "to_double (of_int (c - 1)) \<le> of_int (int n - 1)"
    by (rule to_double_le_int)
  moreover have "percentile_index p n = to_double (of_int (c - 1))"
    by (simp add: percentile_index_def c_def x_def q_def)
  ultimately show ?thesis by simp
qed

lemma percentile_index_95:
  assumes "0 < n"
  shows "percentile_index 95 n < real n"
proof -
  define k :: real where "k = 1 + 1 / 2 ^ 53"
  define q where "q = to_double (95 / 100)"
  define x where "x = to_double (q * real n)"
  define m where "m = \<lceil>x\<rceil> - 1"
  have k: "0 < k" by (simp add: k_def)
  have n: "0 < real n" using assms by simp
  have q0: "0 \<le> q"
    unfolding q_def by (rule to_double_nonneg) simp
  have q1: "q \<le> (95 / 100) * k"
    unfolding q_def k_def by (rule to_double_error) simp
  have y0: "0 \<le> q * real n" using q0 by simp
  have "x \<le> (q * real n) * k"
    unfolding x_def k_def using y0 by (rule to_double_error_nonneg)
  also have "\<dots> \<le> ((95 / 100) * k * real n) * k"
    using q1 k n by (intro mult_right_mono) simp_all
  finally have x1: "x \<le> (95 / 100) * k * k * real n"
    by (simp add: mult_ac)
  have idx: "percentile_index 95 n = to_double (of_int m)"
    by (simp add: percentile_index_def m_def x_def q_def)
  have mx: "real_of_int m < x"
    unfolding m_def by linarith
  show ?thesis
  proof (cases "0 < m")
    case False
    then have "real_of_int m \<le> 0" by simp
    then have "to_double (of_int m) \<le> 0" by (rule to_double_nonpos)
    then show ?thesis using idx n by simp
  next
    case True
    then have "0 < real_of_int m" by simp
    then have "to_double (of_int m) \<le> real_of_int m * k"
      unfolding k_def by (rule to_double_error)
    also have "\<dots> < x * k"
      using mx k by (simp only: mult_less_cancel_right_pos)
    also have "\<dots> \<le> ((95 / 100) * k * k * real n) * k"
      using x1 k by (intro mult_right_mono) simp_all
    also have "\<dots> = ((95 / 100) * k * k * k) * real n"
      by (simp add: mult_ac)
    also have "\<dots> < 1 * real n"
    proof -
      have "(95 / 100) * k * k * k < 1"
        by (simp add: k_def)
      then show ?thesis using n by (simp only: mult_less_cancel_right_pos)
    qed
    finally show ?thesis using idx by simp
  qed
qed

lemma calculatePercentile_read:
  assumes "xs \<noteq> []" and "percentile_index p (length xs) = of_int j"
  shows "calculatePercentile xs p =
     (if j < int (length xs) then Num (xs ! nat (max 0 j)) else Undefined)"
proof -
  have "max 0 (real_of_int j) = of_int (max 0 j)"
    by (simp add: max_def)
  then have "calculatePercentile xs p = js_index xs (of_int (max 0 j))"
    using assms by (simp add: calculatePercentile_def)
  then show ?thesis
    using assms(1) by (simp add: js_index_int)
qed

lemma calculatePercentile_number:
  assumes "xs \<noteq> []"
  shows "has_toFixed (calculatePercentile xs 95)"
proof -
  obtain j where j: "percentile_index 95 (length xs) = of_int j"
    using percentile_index_int by blast
  have "percentile_index 95 (length xs) < real (length xs)"
    using assms by (intro percentile_index_95) simp
  then have "j < int (length xs)"
    using j by simp
  then show ?thesis
    by (simp add: calculatePercentile_read [OF assms j])
qed

lemma medianFee_even:
  assumes "length xs = 2 * m" and "0 < m"
  shows "medianFee xs = Num ((xs ! (m - 1) + xs ! m) / 2)"
proof -
  have "real m - 1 = real (m - 1)"
    using assms(2) by (simp add: of_nat_diff)
  then have "js_index xs (real m - 1) = Num (xs ! (m - 1))"
    using assms by (simp add: js_index_nat del: of_nat_diff)
  then show ?thesis
    using assms by (simp add: medianFee_def js_index_nat js_add_def js_div_def)
qed

lemma medianFee_odd:
  assumes "length xs = 2 * m + 1"
  shows "medianFee xs = Num (xs ! m)"
proof -
  have "\<lfloor>real (2 * m + 1) / 2\<rfloor> = int m"
    by (simp add: floor_eq_iff add_divide_distrib)
  then have "js_index xs (of_int \<lfloor>real (length xs) / 2\<rfloor>) = Num (xs ! m)"
    using assms js_index_nat [of xs m] by simp
  then show ?thesis
    using assms by (simp add: medianFee_def)
qed

lemma medianFee_number:
  assumes "xs \<noteq> []"
  shows "has_toFixed (medianFee xs)"
proof (cases "even (length xs)")
  case True
  then obtain m where m: "length xs = 2 * m" by (auto elim: evenE)
  then have "0 < m" using assms by (cases m) simp_all
  then show ?thesis by (simp add: medianFee_even [OF m])
next
  case False
  then obtain m where "length xs = 2 * m + 1" by (auto elim: oddE)
  then show ?thesis by (simp add: medianFee_odd)
qed

lemma medianCU_medianFee: "medianCU xs = medianFee xs"
  by (simp add: medianCU_def medianFee_def)

lemma maxFee_nonempty: "xs \<noteq> [] \<Longrightarrow> maxFee xs = Num (xs ! (length xs - 1))"
proof -
  assume ne: "xs \<noteq> []"
  then have "real (length xs) - 1 = real (length xs - 1)"
    by (cases xs) simp_all
  then show ?thesis using ne
    by (simp add: maxFee_def js_index_nat del: of_nat_diff)
qed

lemma fee_statistics_numbers:
  assumes "xs \<noteq> []"
  shows "has_toFixed (maxFee xs)" "has_toFixed (averageFee xs)" "has_toFixed (medianFee xs)"
    "has_toFixed (percentile95Fee xs)"
  using assms
  by (simp_all add: maxFee_nonempty averageFee_def js_div_def medianFee_number
      percentile95Fee_def calculatePercentile_number)

lemma cu_statistics_empty:
  "maxCU [] = Undefined" "averageCU [] = NaN" "medianCU [] = NaN"
  by (simp_all add: maxCU_def averageCU_def medianCU_def js_index_def js_add_def js_div_def)

lemma sort_nonempty: "xs \<noteq> [] \<Longrightarrow> sort xs \<noteq> []"
  by (metis length_sort length_0_conv)

lemma batch_summary_sel:
  "start_slot (batch_summary b v s) = batchStartSlot s"
  "end_slot (batch_summary b v s) = batchStartSlot s - (int b - 1)"
  "total_transactions (batch_summary b v s) = totalNonVotingTransactions s"
  "average_tps (batch_summary b v s)
     = js_div (Num (real (totalNonVotingTransactions s))) (Num (real b * blockTime))"
  "max_fee_sol (batch_summary b v s) = maxFee (sort (priorityFees s))"
  "average_fee_sol (batch_summary b v s) = averageFee (sort (priorityFees s))"
  "median_fee_sol (batch_summary b v s) = medianFee (sort (priorityFees s))"
  "percentile95_fee_sol (batch_summary b v s) = percentile95Fee (sort (priorityFees s))"
  "max_cu (batch_summary b v s) = maxCU (sort (computeUnits s))"
  "average_cu (batch_summary b v s) = averageCU (sort (computeUnits s))"
  "median_cu (batch_summary b v s) = medianCU (sort (computeUnits s))"
  "sol_price_usd (batch_summary b v s) = v"
  by (simp_all add: batch_summary_def Let_def)


section \<open>The classifier and the accumulation\<close>

lemma accountKeys_some_match:
  "BadAccount \<notin> set pre \<Longrightarrow> a = VOTE_PROGRAM_ID \<or> a = STAKE_PROGRAM_ID \<Longrightarrow>
     accountKeys_some (pre @ Account a # post) = Inr True"
proof (induction pre)
  case Nil
  then show ?case by auto
next
  case (Cons x pre)
  then show ?case by (cases x) auto
qed

lemma accountKeys_some_fault:
  "Account VOTE_PROGRAM_ID \<notin> set pre \<Longrightarrow> Account STAKE_PROGRAM_ID \<notin> set pre \<Longrightarrow>
     accountKeys_some (pre @ BadAccount # post) = Inl TypeError"
proof (induction pre)
  case Nil
  then show ?case by simp
next
  case (Cons x pre)
  then show ?case by (cases x) auto
qed

lemma isVotingTransaction_iff:
  "isVotingTransaction v \<longleftrightarrow> isVotingTransaction_try v = Inr True"
  by (auto simp: isVotingTransaction_def split: sum.splits)

lemma voting_callback: "isVotingTransaction v \<Longrightarrow> forEach_callback v s = (Normal, s)"
  by (auto simp: forEach_callback_def isVotingTransaction_def split: sum.splits)

lemma forEach_append:
  "forEach (xs @ ys) s =
     (case forEach xs s of (Normal, s1) \<Rightarrow> forEach ys s1 | (Throw e, s1) \<Rightarrow> (Throw e, s1))"
  by (induction xs arbitrary: s) (auto split: prod.splits completion.splits)

lemma forEach_drop_voting:
  "isVotingTransaction v \<Longrightarrow> forEach (txs1 @ v # txs2) s = forEach (txs1 @ txs2) s"
  by (simp add: forEach_append voting_callback split: prod.splits completion.splits)

lemma stored_callback: "stored (snd (forEach_callback v s)) = stored s"
  by (simp add: forEach_callback_def push_fee_def push_compute_units_def Let_def
      split: sum.splits option.splits tx_value.splits)

lemma stored_forEach: "stored (snd (forEach txs s)) = stored s"
proof (induction txs arbitrary: s)
  case Nil
  then show ?case by simp
next
  case (Cons v txs)
  show ?case
  proof (cases "forEach_callback v s")
    case (Pair c s1)
    then have "stored s1 = stored s"
      using stored_callback [of v s] by simp
    then show ?thesis using Pair Cons by (cases c) simp_all
  qed
qed

lemma stored_slot_loop: "stored (snd (slot_loop e l i js s)) = stored s"
proof (induction js arbitrary: s)
  case Nil
  then show ?case by simp
next
  case (Cons j js)
  let ?slot = "l - int i - int j"
  show ?case
  proof (cases "getBlock e ?slot")
    case BlockRejected
    then show ?thesis by (simp add: Let_def)
  next
    case BlockMissing
    then show ?thesis using Cons by (simp add: Let_def)
  next
    case (Block txs)
    show ?thesis
    proof (cases "forEach txs (say (LogFetchingBlock ?slot) s)")
      case (Pair c s2)
      then have "stored s2 = stored s"
        using stored_forEach [of txs "say (LogFetchingBlock ?slot) s"] by simp
      then show ?thesis using Pair Block Cons by (cases c) (simp_all add: Let_def)
    qed
  qed
qed


section \<open>Runs over collaborators that answer alike\<close>

lemma slot_loop_cong:
  assumes "\<And>slot. getBlock e' slot = getBlock e slot \<or>
     (\<exists>txs txs'. getBlock e' slot = Block txs' \<and> getBlock e slot = Block txs
        \<and> (\<forall>s. forEach txs' s = forEach txs s))"
  shows "slot_loop e' l i js s = slot_loop e l i js s"
proof (induction js arbitrary: s)
  case Nil
  then show ?case by simp
next
  case (Cons j js)
  let ?slot = "l - int i - int j"
  from assms [of ?slot] show ?case
  proof
    assume "getBlock e' ?slot = getBlock e ?slot"
    then show ?thesis using Cons
      by (simp add: Let_def split: block_reply.splits prod.splits completion.splits)
  next
    assume "\<exists>txs txs'. getBlock e' ?slot = Block txs' \<and> getBlock e ?slot = Block txs
        \<and> (\<forall>s. forEach txs' s = forEach txs s)"
    then show ?thesis using Cons
      by (auto simp add: Let_def split: prod.splits completion.splits)
  qed
qed

lemma saveData_cong:
  "storageFormat e' = storageFormat e \<Longrightarrow> writeFails e' = writeFails e \<Longrightarrow>
     saveData e' = saveData e"
  by (auto simp: saveData_def fun_eq_iff)

lemma batch_body_cong:
  assumes "batchSize e' = batchSize e" "storageFormat e' = storageFormat e"
    "priceResponse e' = priceResponse e" "writeFails e' = writeFails e"
    "\<And>js s. slot_loop e' l i js s = slot_loop e l i js s"
  shows "batch_body e' l i s = batch_body e l i s"
proof -
  have sd: "saveData e' = saveData e"
    using assms(2,4) by (rule saveData_cong)
  show ?thesis
    unfolding batch_body_def assms(1) assms(3) assms(5) sd by (rule refl)
qed

lemma batch_loop_cong:
  assumes "numSamples e' = numSamples e" "batchSize e' = batchSize e"
    "storageFormat e' = storageFormat e"
    "priceResponse e' = priceResponse e" "writeFails e' = writeFails e"
    "\<And>i js s. slot_loop e' l i js s = slot_loop e l i js s"
  shows "batch_loop e' l i s = batch_loop e l i s"
  using assms
proof (induction e l i s rule: batch_loop.induct)
  case (1 e l i s)
  have body: "batch_body e' l i s = batch_body e l i s"
    using 1 by (intro batch_body_cong) simp_all
  show ?case
  proof (cases "i < numSamples e * batchSize e")
    case False
    then show ?thesis using 1
      by (simp add: batch_loop.simps [of e' l i s] batch_loop.simps [of e l i s])
  next
    case True
    show ?thesis
    proof (cases "batch_body e l i s")
      case (Pair c s1)
      show ?thesis
      proof (cases c)
        case Next
        have "batch_loop e' l (i + batchSize e) s1 = batch_loop e l (i + batchSize e) s1"
          using 1 True Pair Next by simp
        then show ?thesis using True Pair Next body 1(2,3)
          by (simp add: batch_loop.simps [of e' l i s] batch_loop.simps [of e l i s])
      next
        case Return
        then show ?thesis using True Pair body 1(2,3)
          by (simp add: batch_loop.simps [of e' l i s] batch_loop.simps [of e l i s])
      next
        case (Raise err)
        then show ?thesis using True Pair body 1(2,3)
          by (simp add: batch_loop.simps [of e' l i s] batch_loop.simps [of e l i s])
      qed
    qed
  qed
qed

lemma batch_body_numSamples: "batch_body (e\<lparr>numSamples := k\<rparr>) l i s = batch_body e l i s"
proof (rule batch_body_cong)
  show "\<And>js s. slot_loop (e\<lparr>numSamples := k\<rparr>) l i js s = slot_loop e l i js s"
    by (rule slot_loop_cong) simp
qed simp_all


section \<open>A price that cannot be used\<close>

lemma getSolanaPriceInUSD_unusable:
  "price_unusable r \<Longrightarrow> falsy (fst (getSolanaPriceInUSD r s))"
  by (cases r) simp_all

lemma getSolanaPriceInUSD_state:
  "snd (getSolanaPriceInUSD r s)
     = (if r = PriceRequestFails then say ErrFetchingPrice s else s)"
  by (cases r) simp_all

lemma batch_body_unusable:
  assumes "price_unusable (priceResponse e i)"
  shows "batch_body e l i s
     = (Return, say LogUnableToFetchPrice (snd (getSolanaPriceInUSD (priceResponse e i) s)))"
proof (cases "getSolanaPriceInUSD (priceResponse e i) s")
  case (Pair p s0)
  then have "falsy p"
    using getSolanaPriceInUSD_unusable [OF assms, of s] by simp
  then show ?thesis using Pair by (simp add: batch_body_def)
qed

lemma batch_loop_unusable:
  assumes "price_unusable (priceResponse e i)" and "i < numSamples e * batchSize e"
  shows "batch_loop e l i s
     = (Return, say LogUnableToFetchPrice (snd (getSolanaPriceInUSD (priceResponse e i) s)))"
  using assms by (simp add: batch_loop.simps [of e l i s] batch_body_unusable)

lemma truncated_run:
  assumes bad: "price_unusable (priceResponse e (k * batchSize e))"
    and k: "k < numSamples e" and b: "0 < batchSize e"
  shows "j \<le> k \<Longrightarrow>
     fst (batch_loop e l (j * batchSize e) s) \<noteq> Next
     \<and> stored (snd (batch_loop e l (j * batchSize e) s))
         = stored (snd (batch_loop (e\<lparr>numSamples := k\<rparr>) l (j * batchSize e) s))"
proof (induction "k - j" arbitrary: j s)
  case 0
  then have jk: "j = k" by simp
  have lim: "k * batchSize e < numSamples e * batchSize e"
    using k b by simp
  have "batch_loop (e\<lparr>numSamples := k\<rparr>) l (k * batchSize e) s = (Next, s)"
    by (simp add: batch_loop.simps [of "e\<lparr>numSamples := k\<rparr>" l "k * batchSize e" s])
  then show ?case
    using batch_loop_unusable [OF bad lim, of l s] jk
    by (simp add: getSolanaPriceInUSD_state)
next
  case (Suc d)
  then have jk: "j < k" and d: "d = k - Suc j" and le: "Suc j \<le> k" by simp_all
  have lim: "j * batchSize e < numSamples e * batchSize e"
    and lim': "j * batchSize e < k * batchSize e"
    using jk k b by simp_all
  show ?case
  proof (cases "batch_body e l (j * batchSize e) s")
    case (Pair c s1)
    show ?thesis
    proof (cases c)
      case Next
      have "batch_loop e l (j * batchSize e) s = batch_loop e l (Suc j * batchSize e) s1"
        using lim Pair Next
        by (simp add: batch_loop.simps [of e l "j * batchSize e" s] add.commute)
      moreover have "batch_loop (e\<lparr>numSamples := k\<rparr>) l (j * batchSize e) s
          = batch_loop (e\<lparr>numSamples := k\<rparr>) l (Suc j * batchSize e) s1"
        using lim' Pair Next
        by (simp add: batch_loop.simps [of "e\<lparr>numSamples := k\<rparr>" l "j * batchSize e" s]
            batch_body_numSamples add.commute)
      ultimately show ?thesis
        using Suc.hyps(1) [OF d le, of s1] by simp
    next
      case Return
      then show ?thesis using lim lim' Pair
        by (simp add: batch_loop.simps [of e l "j * batchSize e" s]
            batch_loop.simps [of "e\<lparr>numSamples := k\<rparr>" l "j * batchSize e" s]
            batch_body_numSamples)
    next
      case (Raise err)
      then show ?thesis using lim lim' Pair
        by (simp add: batch_loop.simps [of e l "j * batchSize e" s]
            batch_loop.simps [of "e\<lparr>numSamples := k\<rparr>" l "j * batchSize e" s]
            batch_body_numSamples)
    qed
  qed
qed

section \<open>The claims\<close>

text \<open>
  Claim C1. The slot window a summary records is meant to be the window whose slots were
  fetched for it, also after an earlier window was skipped for an empty fee series.
  The program breaks this: \<open>continue\<close> skips \<open>batchStartSlot -= batchSize\<close>, while the
  slots fetched follow \<open>latestSlot - i - j\<close>. In the run below the first window
  (slots 1000 and 999) is skipped, the second fetches slots 998 and 997, and its summary
  is reported and stored under the slots 1000 to 999.
\<close>

theorem skipped_window_mislabels_next_summary:
  "analyzePriorityFees skipped_first_window =
     (Completed,
      \<lparr> console =
          [LogLatestSlot 1000,
           LogFetchingBlock 1000, LogNoTransactions 1000,
           LogFetchingBlock 999, LogNoTransactions 999,
           LogNoPriorityFees,
           LogFetchingBlock 998,
           LogFetchingBlock 997, LogNoTransactions 997,
           LogReport
             \<lparr> start_slot = 1000, end_slot = 999, total_transactions = 1,
               average_tps = Num (5 / 4), max_fee_sol = Num (1 / 200000),
               average_fee_sol = Num (1 / 200000), median_fee_sol = Num (1 / 200000),
               percentile95_fee_sol = Num (1 / 200000), max_cu = Num 150,
               average_cu = Num 150, median_cu = Num 150, sol_price_usd = Num 150 \<rparr>,
           LogInserted 1000 999,
           LogProcessed 1 2],
        stored =
          [\<lparr> start_slot = 1000, end_slot = 999, total_transactions = 1,
             average_tps = Num (5 / 4), max_fee_sol = Num (1 / 200000),
             average_fee_sol = Num (1 / 200000), median_fee_sol = Num (1 / 200000),
             percentile95_fee_sol = Num (1 / 200000), max_cu = Num 150,
             average_cu = Num 150, median_cu = Num 150, sol_price_usd = Num 150 \<rparr>],
        batchStartSlot = 998, batchCount = 1, priorityFees = [1 / 200000],
        computeUnits = [150], totalNonVotingTransactions = 1 \<rparr>)"
  by code_simp

text \<open>
  Claim C2, as the specification words it: the fee series 0.001, 0.002, 0.002, 0.01 has
  maximum 0.01, mean 0.00375, median 0.0015 and 95th percentile 0.01. The median of the
  program is the mean of the two central elements, 0.002, so the four values as stated
  do not hold together.
\<close>

theorem example_statistics_as_stated_fail:
  "\<not> (maxFee [0.001, 0.002, 0.002, 0.01] = Num 0.01
      \<and> averageFee [0.001, 0.002, 0.002, 0.01] = Num 0.00375
      \<and> medianFee [0.001, 0.002, 0.002, 0.01] = Num 0.0015
      \<and> percentile95Fee [0.001, 0.002, 0.002, 0.01] = Num 0.01)"
  by (simp add: medianFee_def js_index_def js_add_def js_div_def)

text \<open>
  Claim C2, amended: on the fee series 0.001, 0.002, 0.002, 0.01 (which sorting leaves as
  it is) the maximum is 0.01, the mean 0.00375, the median 0.002 and the 95th percentile
  0.01, read at index \<open>ceil(0.95 * 4) - 1 = 3\<close>.
\<close>

theorem example_statistics:
  "sort [0.001, 0.002, 0.002, 0.01 :: real] = [0.001, 0.002, 0.002, 0.01]
   \<and> maxFee [0.001, 0.002, 0.002, 0.01] = Num 0.01
   \<and> averageFee [0.001, 0.002, 0.002, 0.01] = Num 0.00375
   \<and> medianFee [0.001, 0.002, 0.002, 0.01] = Num 0.002
   \<and> percentile95Fee [0.001, 0.002, 0.002, 0.01] = Num 0.01
   \<and> \<lceil>(95 / 100) * real (length [0.001, 0.002, 0.002, 0.01 :: real])\<rceil> - 1 = 3"
proof -
  have "percentile_index 95 (length [0.001, 0.002, 0.002, 0.01 :: real]) = 3"
    by code_simp
  then have "percentile95Fee [0.001, 0.002, 0.002, 0.01] = Num 0.01"
    by (simp add: percentile95Fee_def calculatePercentile_def js_index_def)
  then show ?thesis
    by (simp add: maxFee_def averageFee_def medianFee_def js_index_def js_add_def js_div_def)
qed

text \<open>
  Claim C3, as stated, has the index \<open>ceil((p/100) * N) - 1\<close> clamped to \<open>0 .. N - 1\<close> for
  every percentile. The program clamps below only: for the percentile 200 on three
  elements it reads index 5 and returns \<open>undefined\<close>, where the clamped index would give
  the last element. And the program computes the product in doubles: for the percentile
  28 on 25 elements the product is 7.000000000000001, the index 7 and the element 8,
  where the exact index is 6 and its element 7.
\<close>

theorem percentile_above_100_not_clamped:
  "calculatePercentile [1, 2, 3] 200 = Undefined
   \<and> Num ([1, 2, 3] ! nat (spec_percentile_index 200 (length [1, 2, 3 :: real]))) = Num 3
   \<and> calculatePercentile [1, 2, 3] 200
        \<noteq> Num ([1, 2, 3] ! nat (spec_percentile_index 200 (length [1, 2, 3 :: real])))
   \<and> calculatePercentile one_to_25 28 = Num 8
   \<and> Num (one_to_25 ! nat (spec_percentile_index 28 (length one_to_25))) = Num 7"
proof -
  have "percentile_index 200 (length [1, 2, 3 :: real]) = 5"
    by code_simp
  then have a: "calculatePercentile [1, 2, 3] 200 = Undefined"
    by (simp add: calculatePercentile_def js_index_def)
  have b: "Num ([1, 2, 3] ! nat (spec_percentile_index 200 (length [1, 2, 3 :: real]))) = Num 3"
    by (simp add: spec_percentile_index_def clamp_def)
  have c: "calculatePercentile one_to_25 28 = Num 8"
    by code_simp
  have d: "Num (one_to_25 ! nat (spec_percentile_index 28 (length one_to_25))) = Num 7"
    by code_simp
  show ?thesis using a b c d by simp
qed

text \<open>
  Claim C3, amended. Let \<open>i\<close> be \<open>ceil((p/100) * N) - 1\<close> as the program computes it, every
  operation rounded to a double. For the empty sequence calculatePercentile returns 0.
  For a sequence of length \<open>N \<ge> 1\<close> (below \<open>2^32\<close>, as the length of every array is) and a
  percentile \<open>p \<le> 100\<close> it returns the element at index \<open>clamp(i, 0, N - 1)\<close>. In general
  the index is clamped below only: the result is the element at \<open>max(0, i)\<close> when
  \<open>i < N\<close>, and \<open>undefined\<close> otherwise. Sortedness of the sequence is not needed.
\<close>

theorem calculatePercentile_index:
  "calculatePercentile [] p = Num 0
   \<and> (xs \<noteq> [] \<and> length xs < 2 ^ 32 \<and> p \<le> 100 \<longrightarrow>
        calculatePercentile xs p
          = Num (xs ! nat (clamp \<lfloor>percentile_index p (length xs)\<rfloor> 0 (int (length xs) - 1))))
   \<and> (xs \<noteq> [] \<longrightarrow>
        calculatePercentile xs p
          = (if percentile_index p (length xs) < real (length xs)
             then Num (xs ! nat (max 0 \<lfloor>percentile_index p (length xs)\<rfloor>))
             else Undefined))"
proof -
  obtain j where j: "percentile_index p (length xs) = of_int j"
    using percentile_index_int by blast
  have fl: "\<lfloor>percentile_index p (length xs)\<rfloor> = j"
    by (simp add: j)
  have "real_of_int j < real_of_int (int (length xs)) \<longleftrightarrow> j < int (length xs)"
    by (simp only: of_int_less_iff)
  then have lt: "percentile_index p (length xs) < real (length xs) \<longleftrightarrow> j < int (length xs)"
    by (simp add: j)
  have empty: "calculatePercentile [] p = Num 0"
    by (simp add: calculatePercentile_def)
  have general: "calculatePercentile xs p
          = (if percentile_index p (length xs) < real (length xs)
             then Num (xs ! nat (max 0 \<lfloor>percentile_index p (length xs)\<rfloor>))
             else Undefined)" if ne: "xs \<noteq> []"
    unfolding fl lt by (rule calculatePercentile_read [OF ne j])
  have clamped: "calculatePercentile xs p
          = Num (xs ! nat (clamp \<lfloor>percentile_index p (length xs)\<rfloor> 0 (int (length xs) - 1)))"
    if ne: "xs \<noteq> []" and len: "length xs < 2 ^ 32" and p: "p \<le> 100"
  proof -
    have "0 < length xs" using ne by simp
    then have "percentile_index p (length xs) \<le> real (length xs) - 1"
      using p len by (intro percentile_index_le)
    then have "real_of_int j \<le> real_of_int (int (length xs) - 1)"
      by (simp add: j)
    then have le: "j \<le> int (length xs) - 1"
      by (simp only: of_int_le_iff)
    then have "clamp j 0 (int (length xs) - 1) = max 0 j"
      by (simp add: clamp_def min_absorb2)
    moreover have "j < int (length xs)" using le by simp
    ultimately show ?thesis
      unfolding fl by (simp add: calculatePercentile_read [OF ne j])
  qed
  show ?thesis using empty general clamped by blast
qed

theorem calculatePercentile_index_witness:
  "one_to_25 \<noteq> [] \<and> length one_to_25 < 2 ^ 32 \<and> (28 :: real) \<le> 100
   \<and> calculatePercentile one_to_25 28
       = Num (one_to_25 ! nat (clamp \<lfloor>percentile_index 28 (length one_to_25)\<rfloor> 0
                                 (int (length one_to_25) - 1)))
   \<and> Num (one_to_25 ! nat (clamp \<lfloor>percentile_index 28 (length one_to_25)\<rfloor> 0
                                 (int (length one_to_25) - 1))) = Num 8"
proof -
  have h1: "one_to_25 \<noteq> []"
    by (simp add: one_to_25_def)
  have h2: "length one_to_25 < 2 ^ 32"
    by (simp add: one_to_25_def)
  have h3: "(28 :: real) \<le> 100"
    by simp
  have v: "Num (one_to_25 ! nat (clamp \<lfloor>percentile_index 28 (length one_to_25)\<rfloor> 0
                                 (int (length one_to_25) - 1))) = Num 8"
    by code_simp
  from calculatePercentile_index [of 28 one_to_25] h1 h2 h3 v
  show ?thesis by blast
qed

text \<open>
  Claim C4. A failed sink write is meant to be logged and to leave the run going, in the
  table and in the flat-file variant. The table variant does so. In the flat-file variant
  the failed append raises out of the loop into the \<open>catch\<close> of analyzePriorityFees: the
  failure is logged and the run ends. Below, the first append fails: with the flat file
  the run ends before slot 999 is fetched; with the table it goes on to slot 999.
\<close>

theorem csv_write_failure_ends_run:
  "analyzePriorityFees csv_write_fails =
     (Failed WriteError,
      \<lparr> console =
          [LogLatestSlot 1000,
           LogFetchingBlock 1000,
           LogReport
             \<lparr> start_slot = 1000, end_slot = 1000, total_transactions = 1,
               average_tps = Num (5 / 2), max_fee_sol = Num (1 / 200000),
               average_fee_sol = Num (1 / 200000), median_fee_sol = Num (1 / 200000),
               percentile95_fee_sol = Num (1 / 200000), max_cu = Num 150,
               average_cu = Num 150, median_cu = Num 150, sol_price_usd = Num 150 \<rparr>,
           ErrAnalyzing],
        stored = [], batchStartSlot = 1000, batchCount = 0, priorityFees = [1 / 200000],
        computeUnits = [150], totalNonVotingTransactions = 1 \<rparr>)
   \<and> fst (analyzePriorityFees (csv_write_fails\<lparr>storageFormat := Db\<rparr>)) = Completed
   \<and> console (snd (analyzePriorityFees (csv_write_fails\<lparr>storageFormat := Db\<rparr>))) =
          [LogLatestSlot 1000,
           LogFetchingBlock 1000,
           LogReport
             \<lparr> start_slot = 1000, end_slot = 1000, total_transactions = 1,
               average_tps = Num (5 / 2), max_fee_sol = Num (1 / 200000),
               average_fee_sol = Num (1 / 200000), median_fee_sol = Num (1 / 200000),
               percentile95_fee_sol = Num (1 / 200000), max_cu = Num 150,
               average_cu = Num 150, median_cu = Num 150, sol_price_usd = Num 150 \<rparr>,
           ErrInserting,
           LogFetchingBlock 999,
           LogReport
             \<lparr> start_slot = 999, end_slot = 999, total_transactions = 1,
               average_tps = Num (5 / 2), max_fee_sol = Num (1 / 200000),
               average_fee_sol = Num (1 / 200000), median_fee_sol = Num (1 / 200000),
               percentile95_fee_sol = Num (1 / 200000), max_cu = Num 150,
               average_cu = Num 150, median_cu = Num 150, sol_price_usd = Num 150 \<rparr>,
           LogInserted 999 999,
           LogProcessed 2 1]"
  by code_simp

text \<open>
  Claim C5. Take a window whose price is usable and whose scan ends with a non-empty fee
  series and an empty compute-unit series. Its summary is emitted: printReport logs it
  and saveData receives it (the row is stored unless the write fails, and only a failed
  flat-file write raises). In that summary the maximum of the compute units is
  \<open>undefined\<close>, their average and their median are \<open>NaN\<close>.
\<close>

theorem empty_compute_units_still_emitted:
  assumes price: "priceResponse e i = PriceReply v" "\<not> falsy v"
    and scan: "slot_loop e latestSlot i [0..<batchSize e]
                 (s\<lparr>priorityFees := [], computeUnits := [], totalNonVotingTransactions := 0\<rparr>)
               = (Normal, s1)"
    and fees: "priorityFees s1 \<noteq> []"
    and cus: "computeUnits s1 = []"
  shows "max_cu (batch_summary (batchSize e) v s1) = Undefined
    \<and> average_cu (batch_summary (batchSize e) v s1) = NaN
    \<and> median_cu (batch_summary (batchSize e) v s1) = NaN
    \<and> LogReport (batch_summary (batchSize e) v s1)
         \<in> set (console (snd (batch_body e latestSlot i s)))
    \<and> fst (batch_body e latestSlot i s)
        = (if storageFormat e = Csv \<and> writeFails e i then Raise WriteError else Next)
    \<and> stored (snd (batch_body e latestSlot i s))
        = (if writeFails e i then stored s
           else stored s @ [batch_summary (batchSize e) v s1])"
proof -
  let ?row = "batch_summary (batchSize e) v s1"
  have cu: "max_cu ?row = Undefined" "average_cu ?row = NaN" "median_cu ?row = NaN"
    using cus by (simp_all add: batch_summary_sel cu_statistics_empty)
  have "list_all has_toFixed
           [average_tps ?row, max_fee_sol ?row, average_fee_sol ?row, median_fee_sol ?row,
            percentile95_fee_sol ?row, average_cu ?row, sol_price_usd ?row]"
    using fees price(2) cu(2)
    by (simp add: batch_summary_sel has_toFixed_quotient has_toFixed_truthy
        fee_statistics_numbers sort_nonempty)
  then have pr: "printReport ?row s1 = (Normal, say (LogReport ?row) s1)"
    by (simp only: printReport_def if_True)
  have st: "stored s1 = stored s"
    using stored_slot_loop [of e latestSlot i "[0..<batchSize e]"
        "s\<lparr>priorityFees := [], computeUnits := [], totalNonVotingTransactions := 0\<rparr>"] scan
    by simp
  have body: "batch_body e latestSlot i s =
      (case saveData e i ?row (say (LogReport ?row) s1) of
         (Throw err, s3) \<Rightarrow> (Raise err, s3)
       | (Normal, s3) \<Rightarrow>
           (Next, s3\<lparr>batchStartSlot := batchStartSlot s3 - int (batchSize e),
                     batchCount := batchCount s3 + 1\<rparr>))"
    using price scan fees pr by (simp add: batch_body_def Let_def)
  show ?thesis
    unfolding body using cu st
    by (cases "storageFormat e"; cases "writeFails e i") (simp_all add: saveData_def)
qed

theorem empty_compute_units_witness:
  "priceResponse no_compute_units_window 0 = PriceReply (Num 150)
   \<and> \<not> falsy (Num 150)
   \<and> slot_loop no_compute_units_window 1000 0 [0..<batchSize no_compute_units_window]
        (initial_state\<lparr>priorityFees := [], computeUnits := [],
                       totalNonVotingTransactions := 0\<rparr>)
       = (Normal, no_compute_units_scanned)
   \<and> priorityFees no_compute_units_scanned \<noteq> []
   \<and> computeUnits no_compute_units_scanned = []
   \<and> max_cu (batch_summary (batchSize no_compute_units_window) (Num 150)
               no_compute_units_scanned) = Undefined
   \<and> average_cu (batch_summary (batchSize no_compute_units_window) (Num 150)
               no_compute_units_scanned) = NaN
   \<and> median_cu (batch_summary (batchSize no_compute_units_window) (Num 150)
               no_compute_units_scanned) = NaN
   \<and> fst (batch_body no_compute_units_window 1000 0 initial_state) = Next
   \<and> stored (snd (batch_body no_compute_units_window 1000 0 initial_state))
       = [batch_summary (batchSize no_compute_units_window) (Num 150)
            no_compute_units_scanned]"
proof -
  have h1: "priceResponse no_compute_units_window 0 = PriceReply (Num 150)"
    by (simp add: no_compute_units_window_def)
  have h2: "\<not> falsy (Num 150)"
    by simp
  have h3: "slot_loop no_compute_units_window 1000 0 [0..<batchSize no_compute_units_window]
        (initial_state\<lparr>priorityFees := [], computeUnits := [],
                       totalNonVotingTransactions := 0\<rparr>)
       = (Normal, no_compute_units_scanned)"
    by code_simp
  have h4: "priorityFees no_compute_units_scanned \<noteq> []"
    by (simp add: no_compute_units_scanned_def)
  have h5: "computeUnits no_compute_units_scanned = []"
    by (simp add: no_compute_units_scanned_def)
  have w: "\<not> writeFails no_compute_units_window 0" "storageFormat no_compute_units_window = Db"
    "stored initial_state = []"
    by (simp_all add: no_compute_units_window_def initial_state_def)
  show ?thesis
    using h1 h2 h3 h4 h5 w empty_compute_units_still_emitted [OF h1 h2 h3 h4 h5]
    by simp
qed

text \<open>
  Claim C6. If the price answer of window \<open>k\<close> (loop position \<open>k * batchSize\<close>) cannot be
  used (the request fails, or the value is falsy), the loop entered there returns at
  once: the failure is logged, the stored summaries are those stored before, and nothing
  else happens. The run does not complete, and the summaries it stores are exactly those
  of the run over the first \<open>k\<close> windows.
\<close>

theorem unusable_price_halts_run:
  assumes bad: "price_unusable (priceResponse e (k * batchSize e))"
    and k: "k < numSamples e" and b: "0 < batchSize e"
  shows "batch_loop e latestSlot (k * batchSize e) s
        = (Return, say LogUnableToFetchPrice
                     (if priceResponse e (k * batchSize e) = PriceRequestFails
                      then say ErrFetchingPrice s else s))
     \<and> fst (analyzePriorityFees e) \<noteq> Completed
     \<and> stored (snd (analyzePriorityFees e))
         = stored (snd (analyzePriorityFees (e\<lparr>numSamples := k\<rparr>)))"
proof -
  have lim: "k * batchSize e < numSamples e * batchSize e"
    using k b by simp
  have one: "batch_loop e latestSlot (k * batchSize e) s
        = (Return, say LogUnableToFetchPrice
                     (if priceResponse e (k * batchSize e) = PriceRequestFails
                      then say ErrFetchingPrice s else s))"
    using batch_loop_unusable [OF bad lim, of latestSlot s]
    by (simp only: getSolanaPriceInUSD_state)
  have run: "fst (analyzePriorityFees e) \<noteq> Completed
     \<and> stored (snd (analyzePriorityFees e))
         = stored (snd (analyzePriorityFees (e\<lparr>numSamples := k\<rparr>)))"
  proof (cases "getSlot e")
    case None
    then show ?thesis by (simp add: analyzePriorityFees_def)
  next
    case (Some l)
    let ?s0 = "say (LogLatestSlot l) (initial_state\<lparr>batchStartSlot := l\<rparr>)"
    have t: "fst (batch_loop e l 0 ?s0) \<noteq> Next
       \<and> stored (snd (batch_loop e l 0 ?s0))
         = stored (snd (batch_loop (e\<lparr>numSamples := k\<rparr>) l 0 ?s0))"
      using truncated_run [OF bad k b, of 0 l ?s0] by simp
    obtain c s1 where r: "batch_loop e l 0 ?s0 = (c, s1)"
      by (cases "batch_loop e l 0 ?s0")
    obtain c' s1' where r': "batch_loop (e\<lparr>numSamples := k\<rparr>) l 0 ?s0 = (c', s1')"
      by (cases "batch_loop (e\<lparr>numSamples := k\<rparr>) l 0 ?s0")
    show ?thesis using Some t r r'
      by (cases c; cases c') (simp_all add: analyzePriorityFees_def)
  qed
  show ?thesis using one run by simp
qed

theorem unusable_price_witness:
  "price_unusable (priceResponse price_fails_second_window (1 * batchSize price_fails_second_window))
   \<and> 1 < numSamples price_fails_second_window
   \<and> 0 < batchSize price_fails_second_window
   \<and> batch_loop price_fails_second_window 1000 (1 * batchSize price_fails_second_window)
        initial_state
       = (Return, say LogUnableToFetchPrice (say ErrFetchingPrice initial_state))
   \<and> fst (analyzePriorityFees price_fails_second_window) \<noteq> Completed
   \<and> stored (snd (analyzePriorityFees price_fails_second_window))
       = stored (snd (analyzePriorityFees (price_fails_second_window\<lparr>numSamples := 1\<rparr>)))"
proof -
  have h1: "price_unusable
      (priceResponse price_fails_second_window (1 * batchSize price_fails_second_window))"
    by (simp add: price_fails_second_window_def)
  have h2: "1 < numSamples price_fails_second_window"
    by (simp add: price_fails_second_window_def)
  have h3: "0 < batchSize price_fails_second_window"
    by (simp add: price_fails_second_window_def)
  have f: "priceResponse price_fails_second_window
      (1 * batchSize price_fails_second_window) = PriceRequestFails"
    by (simp add: price_fails_second_window_def)
  show ?thesis
    using h1 h2 h3 f unusable_price_halts_run [OF h1 h2 h3, of 1000 initial_state]
    by simp
qed

text \<open>
  Claim C7, as stated, holds for every transaction whose account keys contain the vote or
  the stake program identifier. The classifier scans the keys from the left and answers
  "not voting" when the string conversion of an entry faults, so with the keys
  \<open>[payer, null, vote program]\<close> the transaction is taken for economic: its fee and its
  compute units are appended and it is counted, and the summary of its batch shows them.
\<close>

theorem faulting_entry_before_vote_key_is_counted:
  "accountKeys faulting_vote_tx
       = KeysArray [Account ''payer'', BadAccount, Account VOTE_PROGRAM_ID]
   \<and> Account VOTE_PROGRAM_ID \<in> set [Account ''payer'', BadAccount, Account VOTE_PROGRAM_ID]
   \<and> isVotingTransaction (TxObject faulting_vote_tx) = False
   \<and> priorityFees (snd (forEach_callback (TxObject faulting_vote_tx) initial_state))
       = [5000 / 1000000000]
   \<and> computeUnits (snd (forEach_callback (TxObject faulting_vote_tx) initial_state)) = [2100]
   \<and> totalNonVotingTransactions (snd (forEach_callback (TxObject faulting_vote_tx) initial_state))
       = 1
   \<and> map total_transactions (stored (snd (analyzePriorityFees block_with_faulting_vote))) = [2]
   \<and> map max_cu (stored (snd (analyzePriorityFees block_with_faulting_vote))) = [Num 2100]"
  by code_simp

text \<open>
  Claim C7, amended. A transaction whose account keys are an array in which the vote or
  the stake program identifier occurs, with every entry before that occurrence a key (an
  entry whose string conversion succeeds), is classified as voting and leaves the state
  as it was: nothing is appended to the fee series or to the compute-unit series and
  nothing is counted, whatever its fee and compute units. Taking it out of its block
  changes nothing in the run: every summary, the console and the sink are the same.
\<close>

theorem voting_transaction_contributes_nothing:
  assumes keys: "accountKeys t = KeysArray (pre @ Account a # post)"
    and program: "a = VOTE_PROGRAM_ID \<or> a = STAKE_PROGRAM_ID"
    and well_formed: "BadAccount \<notin> set pre"
    and block: "getBlock e slot = Block (txs1 @ TxObject t # txs2)"
  shows "isVotingTransaction (TxObject t)
     \<and> forEach_callback (TxObject t) s = (Normal, s)
     \<and> analyzePriorityFees (e\<lparr>getBlock := (getBlock e)(slot := Block (txs1 @ txs2))\<rparr>)
          = analyzePriorityFees e"
proof -
  let ?e' = "e\<lparr>getBlock := (getBlock e)(slot := Block (txs1 @ txs2))\<rparr>"
  have v: "isVotingTransaction (TxObject t)"
    using keys program well_formed
    by (simp add: isVotingTransaction_iff accountKeys_some_match)
  have "\<And>l i js s. slot_loop ?e' l i js s = slot_loop e l i js s"
  proof (rule slot_loop_cong)
    fix sl
    show "getBlock ?e' sl = getBlock e sl \<or>
      (\<exists>txs txs'. getBlock ?e' sl = Block txs' \<and> getBlock e sl = Block txs
         \<and> (\<forall>s. forEach txs' s = forEach txs s))"
      using block v by (cases "sl = slot") (simp_all add: forEach_drop_voting)
  qed
  then have "\<And>l i s. batch_loop ?e' l i s = batch_loop e l i s"
    by (intro batch_loop_cong) simp_all
  then have bl: "batch_loop ?e' = batch_loop e"
    by (simp add: fun_eq_iff)
  have bs: "batchSize ?e' = batchSize e" and gs: "getSlot ?e' = getSlot e"
    by simp_all
  have run: "analyzePriorityFees ?e' = analyzePriorityFees e"
    unfolding analyzePriorityFees_def bl bs gs by (rule refl)
  show ?thesis using v run by (simp add: voting_callback)
qed

theorem voting_transaction_witness:
  "accountKeys vote_tx = KeysArray ([Account ''payer''] @ Account VOTE_PROGRAM_ID # [])
   \<and> BadAccount \<notin> set [Account ''payer'']
   \<and> getBlock block_with_vote 1000 = Block ([paying_tx] @ TxObject vote_tx # [])
   \<and> isVotingTransaction (TxObject vote_tx)
   \<and> forEach_callback (TxObject vote_tx) initial_state = (Normal, initial_state)
   \<and> analyzePriorityFees
        (block_with_vote\<lparr>getBlock := (getBlock block_with_vote)(1000 := Block ([paying_tx] @ []))\<rparr>)
       = analyzePriorityFees block_with_vote"
proof -
  have h1: "accountKeys vote_tx = KeysArray ([Account ''payer''] @ Account VOTE_PROGRAM_ID # [])"
    by (simp add: vote_tx_def)
  have h2: "VOTE_PROGRAM_ID = VOTE_PROGRAM_ID \<or> VOTE_PROGRAM_ID = STAKE_PROGRAM_ID"
    by simp
  have h3: "BadAccount \<notin> set [Account ''payer'']"
    by simp
  have h4: "getBlock block_with_vote 1000 = Block ([paying_tx] @ TxObject vote_tx # [])"
    by (simp add: block_with_vote_def)
  from voting_transaction_contributes_nothing [OF h1 h2 h3 h4, of initial_state] h1 h3 h4
  show ?thesis by blast
qed

text \<open>
  Claim C8. For a transaction the classifier does not take for voting, with metadata
  present: a fee of 0 adds nothing to the fee series and nothing to the count of economic
  transactions, while its compute units, when defined, are appended to the compute-unit
  series; an undefined fee with defined compute units appends the compute units and
  leaves the fee series and the count as they were.
\<close>

theorem zero_or_undefined_fee_still_counts_compute_units:
  assumes "\<not> isVotingTransaction (TxObject t)" and "meta t = Some m"
  shows "fst (forEach_callback (TxObject t) s) = Normal
    \<and> (fee m = Some 0 \<longrightarrow>
          priorityFees (snd (forEach_callback (TxObject t) s)) = priorityFees s
        \<and> totalNonVotingTransactions (snd (forEach_callback (TxObject t) s))
            = totalNonVotingTransactions s
        \<and> computeUnits (snd (forEach_callback (TxObject t) s))
            = computeUnits s @ (case computeUnitsConsumed m of None \<Rightarrow> [] | Some cu \<Rightarrow> [cu]))
    \<and> (fee m = None \<and> computeUnitsConsumed m = Some cu \<longrightarrow>
          priorityFees (snd (forEach_callback (TxObject t) s)) = priorityFees s
        \<and> totalNonVotingTransactions (snd (forEach_callback (TxObject t) s))
            = totalNonVotingTransactions s
        \<and> computeUnits (snd (forEach_callback (TxObject t) s)) = computeUnits s @ [cu])"
  using assms
  by (auto simp: forEach_callback_def push_fee_def push_compute_units_def say_def Let_def
      split: sum.splits option.splits)

theorem zero_or_undefined_fee_witness:
  "\<not> isVotingTransaction (TxObject zero_fee_tx)
   \<and> meta zero_fee_tx = Some \<lparr> fee = Some 0, computeUnitsConsumed = Some 150 \<rparr>
   \<and> priorityFees (snd (forEach_callback (TxObject zero_fee_tx) initial_state)) = []
   \<and> totalNonVotingTransactions (snd (forEach_callback (TxObject zero_fee_tx) initial_state)) = 0
   \<and> computeUnits (snd (forEach_callback (TxObject zero_fee_tx) initial_state)) = [150]
   \<and> \<not> isVotingTransaction (TxObject fee_undefined_tx)
   \<and> meta fee_undefined_tx = Some \<lparr> fee = None, computeUnitsConsumed = Some 150 \<rparr>
   \<and> priorityFees (snd (forEach_callback (TxObject fee_undefined_tx) initial_state)) = []
   \<and> totalNonVotingTransactions (snd (forEach_callback (TxObject fee_undefined_tx) initial_state))
       = 0
   \<and> computeUnits (snd (forEach_callback (TxObject fee_undefined_tx) initial_state)) = [150]"
proof -
  have z1: "\<not> isVotingTransaction (TxObject zero_fee_tx)"
    by (simp add: isVotingTransaction_iff zero_fee_tx_def VOTE_PROGRAM_ID_def
        STAKE_PROGRAM_ID_def)
  have z2: "meta zero_fee_tx = Some \<lparr> fee = Some 0, computeUnitsConsumed = Some 150 \<rparr>"
    by (simp add: zero_fee_tx_def)
  have u1: "\<not> isVotingTransaction (TxObject fee_undefined_tx)"
    by (simp add: isVotingTransaction_iff fee_undefined_tx_def VOTE_PROGRAM_ID_def
        STAKE_PROGRAM_ID_def)
  have u2: "meta fee_undefined_tx = Some \<lparr> fee = None, computeUnitsConsumed = Some 150 \<rparr>"
    by (simp add: fee_undefined_tx_def)
  have i: "priorityFees initial_state = []" "computeUnits initial_state = []"
    "totalNonVotingTransactions initial_state = 0"
    by (simp_all add: initial_state_def)
  show ?thesis
    using z1 z2 u1 u2 i
      zero_or_undefined_fee_still_counts_compute_units [OF z1 z2, of initial_state 150]
      zero_or_undefined_fee_still_counts_compute_units [OF u1 u2, of initial_state 150]
    by simp
qed

text \<open>
  Claim C9. For a non-empty sequence the median of the fee series and the median of the
  compute-unit series are the middle element when the length is odd, and the arithmetic
  mean of the two central elements when it is even. Sortedness of the sequence is not
  needed for this.
\<close>

theorem median_middle_or_mean_of_central:
  assumes "xs \<noteq> []"
  shows "medianFee xs =
           (if odd (length xs) then Num (xs ! (length xs div 2))
            else Num ((xs ! (length xs div 2 - 1) + xs ! (length xs div 2)) / 2))
       \<and> medianCU xs =
           (if odd (length xs) then Num (xs ! (length xs div 2))
            else Num ((xs ! (length xs div 2 - 1) + xs ! (length xs div 2)) / 2))"
proof -
  have "medianFee xs =
           (if odd (length xs) then Num (xs ! (length xs div 2))
            else Num ((xs ! (length xs div 2 - 1) + xs ! (length xs div 2)) / 2))"
  proof (cases "even (length xs)")
    case True
    then obtain m where m: "length xs = 2 * m" by (auto elim: evenE)
    then have "0 < m" using assms by (cases m) simp_all
    then show ?thesis using m by (simp add: medianFee_even [OF m])
  next
    case False
    then obtain m where m: "length xs = 2 * m + 1" by (auto elim: oddE)
    then show ?thesis by (simp add: medianFee_odd [OF m])
  qed
  then show ?thesis by (simp add: medianCU_medianFee)
qed

theorem median_witness:
  "[1, 3, 7 :: real] \<noteq> [] \<and> medianFee [1, 3, 7] = Num 3 \<and> medianCU [1, 3, 7] = Num 3
   \<and> [1, 3, 7, 9 :: real] \<noteq> [] \<and> medianFee [1, 3, 7, 9] = Num 5 \<and> medianCU [1, 3, 7, 9] = Num 5"
proof -
  have o: "[1, 3, 7 :: real] \<noteq> []" and e: "[1, 3, 7, 9 :: real] \<noteq> []"
    by simp_all
  show ?thesis
    using median_middle_or_mean_of_central [OF o] median_middle_or_mean_of_central [OF e]
    by simp
qed

text \<open>
  Claim C10. The classifier answers "not voting" when the account keys are absent or are
  not an array, when the transaction value itself is nullish, and when the scan of the
  array meets an entry whose string conversion faults before it meets the vote or stake
  identifier. Whatever is raised inside the \<open>try\<close> block is caught and answered by "not
  voting": the result is always a boolean. (An array in which the identifier comes before
  a faulting entry is decided by the identifier: the scan stops there.)
\<close>

theorem classifier_fails_open:
  "(accountKeys t = KeysAbsent \<or> accountKeys t = KeysNotArray
      \<longrightarrow> \<not> isVotingTransaction (TxObject t))
   \<and> \<not> isVotingTransaction TxNullish
   \<and> (accountKeys t = KeysArray (pre @ BadAccount # post)
        \<and> Account VOTE_PROGRAM_ID \<notin> set pre \<and> Account STAKE_PROGRAM_ID \<notin> set pre
       \<longrightarrow> \<not> isVotingTransaction (TxObject t))
   \<and> (isVotingTransaction_try v = Inl err \<longrightarrow> \<not> isVotingTransaction v)"
proof -
  have "\<not> isVotingTransaction (TxObject t)"
    if "accountKeys t = KeysArray (pre @ BadAccount # post)"
      and "Account VOTE_PROGRAM_ID \<notin> set pre" and "Account STAKE_PROGRAM_ID \<notin> set pre"
    using that by (simp add: isVotingTransaction_iff accountKeys_some_fault)
  moreover have "\<not> isVotingTransaction (TxObject t)"
    if "accountKeys t = KeysAbsent \<or> accountKeys t = KeysNotArray"
    using that by (auto simp: isVotingTransaction_iff)
  moreover have "\<not> isVotingTransaction TxNullish"
    by (simp add: isVotingTransaction_iff)
  moreover have "\<not> isVotingTransaction v" if "isVotingTransaction_try v = Inl err"
    using that by (simp add: isVotingTransaction_iff)
  ultimately show ?thesis by blast
qed

theorem classifier_fails_open_witness:
  "accountKeys \<lparr> accountKeys = KeysNotArray, meta = None \<rparr> = KeysNotArray
   \<and> \<not> isVotingTransaction (TxObject \<lparr> accountKeys = KeysNotArray, meta = None \<rparr>)
   \<and> accountKeys faulting_tx = KeysArray ([Account ''payer''] @ BadAccount # [Account VOTE_PROGRAM_ID])
   \<and> Account VOTE_PROGRAM_ID \<notin> set [Account ''payer'']
   \<and> Account STAKE_PROGRAM_ID \<notin> set [Account ''payer'']
   \<and> \<not> isVotingTransaction (TxObject faulting_tx)
   \<and> isVotingTransaction_try (TxObject faulting_tx) = Inl TypeError"
proof -
  have a: "accountKeys \<lparr> accountKeys = KeysNotArray, meta = None \<rparr> = KeysNotArray"
    by simp
  have k: "accountKeys faulting_tx
      = KeysArray ([Account ''payer''] @ BadAccount # [Account VOTE_PROGRAM_ID])"
    by (simp add: faulting_tx_def)
  have n: "Account VOTE_PROGRAM_ID \<notin> set [Account ''payer'']"
    "Account STAKE_PROGRAM_ID \<notin> set [Account ''payer'']"
    by (simp_all add: VOTE_PROGRAM_ID_def STAKE_PROGRAM_ID_def)
  have f: "isVotingTransaction_try (TxObject faulting_tx) = Inl TypeError"
    by (simp add: faulting_tx_def VOTE_PROGRAM_ID_def STAKE_PROGRAM_ID_def)
  show ?thesis
    using a k n f
      classifier_fails_open [of "\<lparr> accountKeys = KeysNotArray, meta = None \<rparr>"
        "[Account ''payer'']" "[Account VOTE_PROGRAM_ID]" "TxObject faulting_tx" TypeError]
      classifier_fails_open [of faulting_tx
        "[Account ''payer'']" "[Account VOTE_PROGRAM_ID]" "TxObject faulting_tx" TypeError]
    by simp
qed

end

